theory Spec2Isabelle
  imports Main "HOL-Library.Word"
begin

section \<open>Data model of the runtime\<close>

text \<open>
  A C \<open>float\<close> is an IEEE 754 binary32 value, kept here as its 32-bit pattern. The only
  float operations of the ReLU kernel are a copy and the comparison \<open>x > 0.0f\<close>, and
  both are functions of the bit pattern: \<open>x > 0.0f\<close> holds exactly for the patterns
  \<open>0x00000001 .. 0x7F800000\<close> (positive subnormal and normal numbers and +infinity); it
  fails for both zeros, for every negative number and for every NaN.
\<close>

type_synonym float32 = "32 word"

definition float_zero :: float32 where
  \<comment> \<open>the literal \<open>0.0f\<close>\<close>
  "float_zero = 0"

definition float_neg_zero :: float32 where
  "float_neg_zero = 0x80000000"

definition float_gt_zero :: "float32 \<Rightarrow> bool" where
  \<comment> \<open>the C expression \<open>x > 0.0f\<close>\<close>
  "float_gt_zero x = (0 < x \<and> x \<le> 0x7F800000)"

text \<open>
  The status codes returned by the functions under study (the values of
  \<open>rt_function_error_t\<close> that the sources use).
\<close>

datatype rt_function_error_t =
    RT_FUNCTION_ERROR_NOERROR
  | RT_FUNCTION_ERROR_INVALID_NUM_OF_INPUTS
  | RT_FUNCTION_ERROR_INVALID_NUM_OF_OUTPUTS
  | RT_FUNCTION_ERROR_INVALID_SHAPE
  | RT_FUNCTION_ERROR_MALLOC

text \<open>
  A pointer is the handle of the object it points to; \<open>None\<close> is the null pointer for
  the pointers the code tests or dereferences as structures. A \<open>float *\<close> taken from a
  variable points to the start of that variable's buffer, and every access of the code is
  \<open>base[i]\<close>, so a data pointer is the handle of a buffer and two variables alias exactly
  when they carry the same handle.
\<close>

type_synonym addr = nat

text \<open>
  A C \<open>int\<close> is a 32-bit two's complement word; \<open>sint\<close> reads its value, which lies
  between \<open>- 2^31\<close> and \<open>2^31 - 1\<close>.
\<close>

type_synonym c_int = "32 word"

record rt_variable_t =
  shape :: "c_int list" \<comment> \<open>\<open>rt_list_t shape\<close>: \<open>size\<close> entries of \<open>data\<close>\<close>
  data :: addr          \<comment> \<open>\<open>void *data\<close>\<close>

record rt_function_t =
  num_of_inputs :: c_int
  inputs :: "rt_variable_t list"
  num_of_outputs :: c_int
  outputs :: "rt_variable_t list"
  local_context :: "addr option"

record relu_private_t =
  "input" :: addr
  input_size :: c_int
  "output" :: addr
  output_size :: c_int

text \<open>
  The pooling and convolution structures are declared in headers that are not part of the
  sources at hand. The sum pooling context has the members of \<open>sum_pooling_config_t\<close>
  of \<open>runtime.h\<close> and the member \<open>private\<close> that the allocation writes; of the
  convolution structures only the members that \<open>exec_convolution\<close> reads are known. The
  members of \<open>pooling_private_t\<close> are not known and no function below reads them.
\<close>

typedecl pooling_private_t

record sum_pooling_local_context_t =
  kernel :: "c_int list"
  stride :: "c_int list"
  ignore_border :: "8 word"
  pad :: "c_int list"
  pooling_private :: "addr option"     \<comment> \<open>the member \<open>private\<close>\<close>

record convolution_local_context_t =
  convolution_private :: "addr option" \<comment> \<open>the member \<open>private\<close>\<close>

record convolution_private_t =
  exec :: addr                         \<comment> \<open>the member \<open>exec\<close>, a code pointer\<close>

text \<open>
  The heap, one component per C type: float buffers, and the structures reached through
  the opaque \<open>local_context\<close> pointer. A handle outside a component's domain is a
  dangling or null pointer of that type.
\<close>

record heap =
  bufs :: "addr \<rightharpoonup> float32 list"
  relu_privates :: "addr \<rightharpoonup> relu_private_t"
  sum_pooling_contexts :: "addr \<rightharpoonup> sum_pooling_local_context_t"
  pooling_privates :: "addr \<rightharpoonup> pooling_private_t"
  convolution_contexts :: "addr \<rightharpoonup> convolution_local_context_t"
  convolution_privates :: "addr \<rightharpoonup> convolution_private_t"

text \<open>
  A call either returns a status with the record and heap it leaves behind, or has no
  defined behaviour (\<open>None\<close>): a null or dangling pointer is dereferenced, or a buffer is
  indexed outside its bounds.
\<close>

type_synonym outcome = "(rt_function_error_t \<times> rt_function_t \<times> heap) option"

definition load :: "heap \<Rightarrow> addr \<Rightarrow> nat \<Rightarrow> float32 option" where
  \<comment> \<open>the read \<open>b[i]\<close>\<close>
  "load h b i =
     (case bufs h b of
        None \<Rightarrow> None
      | Some xs \<Rightarrow> if i < length xs then Some (xs ! i) else None)"

definition store :: "heap \<Rightarrow> addr \<Rightarrow> nat \<Rightarrow> float32 \<Rightarrow> heap option" where
  \<comment> \<open>the write \<open>b[i] = v\<close>\<close>
  "store h b i v =
     (case bufs h b of
        None \<Rightarrow> None
      | Some xs \<Rightarrow>
          if i < length xs then Some (h\<lparr>bufs := (bufs h)(b \<mapsto> xs[i := v])\<rparr>) else None)"

section \<open>Shape utilities\<close>

text \<open>
  Modelled from the spec: \<open>calc_shape_size\<close> is called by the sources, which keep its
  result in a C \<open>int\<close>, but it is defined in a utilities file that is not at hand. The
  spec gives it as the product of the dimensions, with the empty shape of size 1. A
  product that no \<open>int\<close> can hold is a signed overflow, for which C defines no
  behaviour: the result is then \<open>None\<close>, as for every other undefined step.
\<close>

definition calc_shape_size :: "c_int list \<Rightarrow> c_int option" where
  "calc_shape_size s =
     (let p = prod_list (map sint s)
      in if - (2 ^ 31) \<le> p \<and> p < 2 ^ 31 then Some (word_of_int p) else None)"

section \<open>ReLU\<close>

text \<open>
  \<open>malloc\<close> is outside the program: its result for the one call an allocation makes is
  an argument, \<open>None\<close> for a null result.
\<close>

definition allocate_relu_local_context :: "addr option \<Rightarrow> rt_function_t \<Rightarrow> heap \<Rightarrow> outcome" where
  "allocate_relu_local_context malloc_result f h =
     (if num_of_inputs f \<noteq> 1 then Some (RT_FUNCTION_ERROR_INVALID_NUM_OF_INPUTS, f, h)
      else if num_of_outputs f \<noteq> 1 then Some (RT_FUNCTION_ERROR_INVALID_NUM_OF_OUTPUTS, f, h)
      else
        (case malloc_result of
           None \<Rightarrow> Some (RT_FUNCTION_ERROR_MALLOC, f, h)
         | Some p \<Rightarrow>
             (let f' = f\<lparr>local_context := Some p\<rparr> in
              case inputs f' of
                [] \<Rightarrow> None
              | iv # _ \<Rightarrow>
                  (case calc_shape_size (shape iv) of
                     None \<Rightarrow> None
                   | Some n_in \<Rightarrow>
                       (case outputs f' of
                          [] \<Rightarrow> None
                        | ov # _ \<Rightarrow>
                            (case calc_shape_size (shape ov) of
                               None \<Rightarrow> None
                             | Some n_out \<Rightarrow>
                                 (let c = \<lparr>input = data iv, input_size = n_in,
                                           output = data ov, output_size = n_out\<rparr>;
                                      h' = h\<lparr>relu_privates := (relu_privates h)(p \<mapsto> c)\<rparr>
                                  in if input_size c \<noteq> output_size c
                                     then Some (RT_FUNCTION_ERROR_INVALID_SHAPE, f', h')
                                     else Some (RT_FUNCTION_ERROR_NOERROR, f', h'))))))))"

definition relu_elem :: "float32 \<Rightarrow> float32" where
  \<comment> \<open>the loop body's value \<open>(x > 0.0f) ? x : 0.0f\<close>\<close>
  "relu_elem x = (if float_gt_zero x then x else float_zero)"

text \<open>
  The loop of \<open>exec_relu\<close>, entered at index \<open>i\<close>. The structure \<open>*private\<close> lives in a
  heap component that float writes do not reach, so its members are read once. The
  counter \<open>i\<close> starts at 0 and is incremented only while it is below an \<open>int\<close>, so it
  never leaves the range of \<open>int\<close> and is kept as a natural number.
\<close>

function relu_loop :: "relu_private_t \<Rightarrow> nat \<Rightarrow> heap \<Rightarrow> heap option" where
  "relu_loop c i h =
     (if int i < sint (output_size c) then
        (case load h (input c) i of
           None \<Rightarrow> None
         | Some x \<Rightarrow>
             (case store h (output c) i (relu_elem x) of
                None \<Rightarrow> None
              | Some h' \<Rightarrow> relu_loop c (i + 1) h'))
      else Some h)"
  by pat_completeness auto
termination
  by (relation "measure (\<lambda>(c, i, h). nat (sint (output_size c) - int i))") auto

declare relu_loop.simps [simp del]

definition exec_relu :: "rt_function_t \<Rightarrow> heap \<Rightarrow> outcome" where
  "exec_relu f h =
     (case local_context f of
        None \<Rightarrow> None
      | Some p \<Rightarrow>
          (case relu_privates h p of
             None \<Rightarrow> None
           | Some c \<Rightarrow>
               (case relu_loop c 0 h of
                  None \<Rightarrow> None
                | Some h' \<Rightarrow> Some (RT_FUNCTION_ERROR_NOERROR, f, h'))))"

text \<open>
  What allocation establishes and execution relies on. \<open>buf_bound h b n\<close>: the buffer
  \<open>b\<close> holds at least \<open>n\<close> elements (nothing is asked of the pointer when \<open>n\<close> is not
  positive, since then no element is touched).
\<close>

definition buf_bound :: "heap \<Rightarrow> addr \<Rightarrow> int \<Rightarrow> bool" where
  "buf_bound h b n =
     (0 < n \<longrightarrow> (case bufs h b of None \<Rightarrow> False | Some xs \<Rightarrow> n \<le> int (length xs)))"

definition var_bound :: "heap \<Rightarrow> rt_variable_t \<Rightarrow> bool" where
  \<comment> \<open>a variable's buffer holds as many elements as its shape says\<close>
  "var_bound h v =
     (case calc_shape_size (shape v) of
        None \<Rightarrow> False
      | Some n \<Rightarrow> buf_bound h (data v) (sint n))"


definition relu_ready :: "rt_function_t \<Rightarrow> heap \<Rightarrow> bool" where
  \<comment> \<open>the Ready state: a context is stored, its sizes agree, its buffers are large enough\<close>
  "relu_ready f h =
     (case local_context f of
        None \<Rightarrow> False
      | Some p \<Rightarrow>
          (case relu_privates h p of
             None \<Rightarrow> False
           | Some c \<Rightarrow>
               input_size c = output_size c \<and>
               buf_bound h (input c) (sint (input_size c)) \<and>
               buf_bound h (output c) (sint (output_size c))))"

section \<open>Arithmetic between a buffer and a scalar\<close>

text \<open>The loop of \<open>calc_scalar\<close>, entered at index \<open>i\<close>.\<close>

function calc_scalar_loop ::
  "addr \<Rightarrow> addr \<Rightarrow> float32 \<Rightarrow> (float32 \<Rightarrow> float32 \<Rightarrow> float32) \<Rightarrow> c_int \<Rightarrow> nat \<Rightarrow> heap \<Rightarrow> heap option"
  where
  "calc_scalar_loop inp outp val calc_func out_size i h =
     (if int i < sint out_size then
        (case load h inp i of
           None \<Rightarrow> None
         | Some x \<Rightarrow>
             (case store h outp i (calc_func x val) of
                None \<Rightarrow> None
              | Some h' \<Rightarrow> calc_scalar_loop inp outp val calc_func out_size (i + 1) h'))
      else Some h)"
  by pat_completeness auto
termination
  by (relation "measure (\<lambda>(inp, outp, val, calc_func, out_size, i, h). nat (sint out_size - int i))")
    auto

declare calc_scalar_loop.simps [simp del]

definition calc_scalar ::
  "rt_function_t \<Rightarrow> float32 \<Rightarrow> (float32 \<Rightarrow> float32 \<Rightarrow> float32) \<Rightarrow> heap \<Rightarrow> heap option"
  where
  "calc_scalar f val calc_func h =
     (case outputs f of
        [] \<Rightarrow> None
      | ov # _ \<Rightarrow>
          (case calc_shape_size (shape ov) of
             None \<Rightarrow> None
           | Some out_size \<Rightarrow>
               (case inputs f of
                  [] \<Rightarrow> None
                | iv # _ \<Rightarrow> calc_scalar_loop (data iv) (data ov) val calc_func out_size 0 h)))"

section \<open>Sum pooling\<close>




section \<open>Convolution\<close>

text \<open>
  A function pointer is a code address; \<open>code\<close> maps each address to the function found
  there. \<open>allocate_convolution_local_context_common\<close> is a helper that is not at hand
  and is an argument.
\<close>

type_synonym exec_function = "rt_function_t \<Rightarrow> heap \<Rightarrow> outcome"

definition allocate_convolution_local_context ::
  "(rt_function_t \<Rightarrow> c_int \<Rightarrow> c_int \<Rightarrow> c_int \<Rightarrow> c_int \<Rightarrow> c_int \<Rightarrow> heap \<Rightarrow> outcome) \<Rightarrow>
   rt_function_t \<Rightarrow> heap \<Rightarrow> outcome"
  where
  "allocate_convolution_local_context allocate_convolution_local_context_common f h =
     allocate_convolution_local_context_common f 0 1 2 (- 1) 0 h"

definition exec_convolution :: "(addr \<Rightarrow> exec_function) \<Rightarrow> rt_function_t \<Rightarrow> heap \<Rightarrow> outcome" where
  "exec_convolution code f h =
     (case local_context f of
        None \<Rightarrow> None
      | Some cp \<Rightarrow>
          (case convolution_contexts h cp of
             None \<Rightarrow> None
           | Some c \<Rightarrow>
               (case convolution_private c of
                  None \<Rightarrow> None
                | Some pp \<Rightarrow>
                    (case convolution_privates h pp of
                       None \<Rightarrow> None
                     | Some p \<Rightarrow> code (exec p) f h))))"

definition convolution_ready :: "rt_function_t \<Rightarrow> heap \<Rightarrow> addr \<Rightarrow> bool" where
  \<comment> \<open>the Ready state: the private context is in place and holds the code pointer \<open>k\<close>\<close>
  "convolution_ready f h k =
     (case local_context f of
        None \<Rightarrow> False
      | Some cp \<Rightarrow>
          (case convolution_contexts h cp of
             None \<Rightarrow> False
           | Some c \<Rightarrow>
               (case convolution_private c of
                  None \<Rightarrow> False
                | Some pp \<Rightarrow>
                    (case convolution_privates h pp of
                       None \<Rightarrow> False
                     | Some p \<Rightarrow> exec p = k))))"

section \<open>Vocabulary of the properties\<close>

definition same_structs :: "heap \<Rightarrow> heap \<Rightarrow> bool" where
  \<comment> \<open>every heap component other than the float buffers is the same\<close>
  "same_structs h h' =
     (relu_privates h' = relu_privates h \<and>
      sum_pooling_contexts h' = sum_pooling_contexts h \<and>
      pooling_privates h' = pooling_privates h \<and>
      convolution_contexts h' = convolution_contexts h \<and>
      convolution_privates h' = convolution_privates h)"

definition loop_frame :: "addr \<Rightarrow> int \<Rightarrow> nat \<Rightarrow> heap \<Rightarrow> heap \<Rightarrow> bool" where
  \<comment> \<open>from \<open>h\<close> to \<open>h'\<close> nothing changed but the elements \<open>i .. n - 1\<close> of buffer \<open>outp\<close>\<close>
  "loop_frame outp n i h h' =
     (same_structs h h' \<and>
      (\<forall>b. b \<noteq> outp \<longrightarrow> bufs h' b = bufs h b) \<and>
      map_option length (bufs h' outp) = map_option length (bufs h outp) \<and>
      (\<forall>j. \<not> (i \<le> j \<and> int j < n) \<longrightarrow> load h' outp j = load h outp j))"

subsection \<open>Sample records and heaps\<close>

text \<open>
  Two buffers of four floats: buffer 0 holds 1.0, -1.0, +0.0 and a quiet NaN, buffer 1
  holds -0.0, 2.0, +infinity and the smallest positive subnormal.
\<close>

definition sample_heap :: heap where
  "sample_heap =
     \<lparr>bufs = [0 \<mapsto> [0x3F800000, 0xBF800000, 0, 0x7FC00000],
               1 \<mapsto> [0x80000000, 0x40000000, 0x7F800000, 1]],
      relu_privates = Map.empty,
      sum_pooling_contexts = Map.empty,
      pooling_privates = Map.empty,
      convolution_contexts = Map.empty,
      convolution_privates = Map.empty\<rparr>"

definition sample_record :: rt_function_t where
  \<comment> \<open>one input of shape 2 x 2 in buffer 0, one output of shape 4 in buffer 1\<close>
  "sample_record =
     \<lparr>num_of_inputs = 1, inputs = [\<lparr>shape = [2, 2], data = 0\<rparr>],
      num_of_outputs = 1, outputs = [\<lparr>shape = [4], data = 1\<rparr>],
      local_context = None\<rparr>"

definition sample_private :: relu_private_t where
  "sample_private = \<lparr>input = 0, input_size = 4, output = 1, output_size = 4\<rparr>"

definition ready_record :: rt_function_t where
  "ready_record = sample_record\<lparr>local_context := Some 7\<rparr>"

definition ready_heap :: heap where
  "ready_heap = sample_heap\<lparr>relu_privates := [7 \<mapsto> sample_private]\<rparr>"

definition inplace_record :: rt_function_t where
  \<comment> \<open>input and output are the same buffer\<close>
  "inplace_record =
     \<lparr>num_of_inputs = 1, inputs = [\<lparr>shape = [4], data = 0\<rparr>],
      num_of_outputs = 1, outputs = [\<lparr>shape = [4], data = 0\<rparr>],
      local_context = Some 7\<rparr>"

definition inplace_heap :: heap where
  "inplace_heap =
     sample_heap\<lparr>relu_privates := [7 \<mapsto> \<lparr>input = 0, input_size = 4, output = 0, output_size = 4\<rparr>]\<rparr>"

definition two_inputs_record :: rt_function_t where
  "two_inputs_record =
     \<lparr>num_of_inputs = 2, inputs = [\<lparr>shape = [4], data = 0\<rparr>, \<lparr>shape = [4], data = 0\<rparr>],
      num_of_outputs = 1, outputs = [\<lparr>shape = [4], data = 1\<rparr>],
      local_context = None\<rparr>"

definition two_outputs_record :: rt_function_t where
  "two_outputs_record =
     \<lparr>num_of_inputs = 1, inputs = [\<lparr>shape = [4], data = 0\<rparr>],
      num_of_outputs = 2, outputs = [\<lparr>shape = [4], data = 1\<rparr>, \<lparr>shape = [4], data = 1\<rparr>],
      local_context = None\<rparr>"

definition two_by_two_record :: rt_function_t where
  "two_by_two_record =
     \<lparr>num_of_inputs = 2, inputs = [\<lparr>shape = [4], data = 0\<rparr>, \<lparr>shape = [4], data = 0\<rparr>],
      num_of_outputs = 2, outputs = [\<lparr>shape = [4], data = 1\<rparr>, \<lparr>shape = [4], data = 1\<rparr>],
      local_context = None\<rparr>"

definition huge_record :: rt_function_t where
  \<comment> \<open>both shapes have \<open>2^32\<close> elements, more than an \<open>int\<close> can count\<close>
  "huge_record =
     \<lparr>num_of_inputs = 1, inputs = [\<lparr>shape = [65536, 65536], data = 0\<rparr>],
      num_of_outputs = 1, outputs = [\<lparr>shape = [65536, 65536], data = 1\<rparr>],
      local_context = None\<rparr>"

definition mismatch_record :: rt_function_t where
  \<comment> \<open>four input elements, three output elements\<close>
  "mismatch_record =
     \<lparr>num_of_inputs = 1, inputs = [\<lparr>shape = [2, 2], data = 0\<rparr>],
      num_of_outputs = 1, outputs = [\<lparr>shape = [3], data = 1\<rparr>],
      local_context = None\<rparr>"






definition convolution_record :: rt_function_t where
  "convolution_record =
     \<lparr>num_of_inputs = 2,
      inputs = [\<lparr>shape = [1, 1, 2, 2], data = 0\<rparr>, \<lparr>shape = [1, 1, 1, 1], data = 1\<rparr>],
      num_of_outputs = 1, outputs = [\<lparr>shape = [1, 1, 2, 2], data = 1\<rparr>],
      local_context = Some 3\<rparr>"

definition convolution_heap :: heap where
  "convolution_heap =
     sample_heap\<lparr>convolution_contexts := [3 \<mapsto> \<lparr>convolution_private = Some 4\<rparr>],
                 convolution_privates := [4 \<mapsto> \<lparr>exec = 11\<rparr>]\<rparr>"

definition sample_code :: "addr \<Rightarrow> exec_function" where
  \<comment> \<open>code address 11 holds a kernel that reports an invalid shape; nothing else is code\<close>
  "sample_code a f h = (if a = 11 then Some (RT_FUNCTION_ERROR_INVALID_SHAPE, f, h) else None)"

definition positive_or :: "float32 \<Rightarrow> float32 \<Rightarrow> float32" where
  \<comment> \<open>a binary operator for the sample runs of \<open>calc_scalar\<close>: \<open>x > 0.0f ? x : y\<close>\<close>
  "positive_or x y = (if float_gt_zero x then x else y)"

section \<open>Basic facts\<close>

lemma float_gt_zero_zero: "\<not> float_gt_zero float_zero"
  by (simp add: float_gt_zero_def float_zero_def)

lemma float_gt_zero_neg_zero: "\<not> float_gt_zero float_neg_zero"
  by (simp add: float_gt_zero_def float_neg_zero_def)

lemma relu_elem_idem: "relu_elem (relu_elem x) = relu_elem x"
  by (simp add: relu_elem_def float_gt_zero_zero)

lemma sint_c_int: "- (2 ^ 31) \<le> p \<Longrightarrow> p < 2 ^ 31 \<Longrightarrow> sint (word_of_int p :: c_int) = p"
  by (simp add: sint_sbintrunc' signed_take_bit_int_eq_self)

lemma calc_shape_size_prod: "calc_shape_size s = Some n \<Longrightarrow> sint n = prod_list (map sint s)"
  by (auto simp: calc_shape_size_def Let_def sint_c_int split: if_splits)

lemma calc_shape_size_fits:
  "- (2 ^ 31) \<le> prod_list (map sint s) \<Longrightarrow> prod_list (map sint s) < 2 ^ 31 \<Longrightarrow>
   \<exists>n. calc_shape_size s = Some n \<and> sint n = prod_list (map sint s)"
  by (simp add: calc_shape_size_def Let_def sint_c_int)

lemma calc_shape_size_huge: "calc_shape_size [65536, 65536] = None"
  by (simp add: calc_shape_size_def)

subsection \<open>Reads and writes\<close>

lemma load_store:
  "store h b i v = Some h' \<Longrightarrow> load h' b' j = (if b' = b \<and> j = i then Some v else load h b' j)"
  by (auto simp: load_def store_def split: option.splits if_splits)

lemma store_bufs_other: "store h b i v = Some h' \<Longrightarrow> b' \<noteq> b \<Longrightarrow> bufs h' b' = bufs h b'"
  by (auto simp: store_def split: option.splits if_splits)

lemma store_length:
  "store h b i v = Some h' \<Longrightarrow> map_option length (bufs h' b') = map_option length (bufs h b')"
  by (auto simp: store_def split: option.splits if_splits)

lemma store_structs: "store h b i v = Some h' \<Longrightarrow> same_structs h h'"
  by (auto simp: store_def same_structs_def split: option.splits if_splits)

lemma buf_bound_length:
  "map_option length (bufs h' b) = map_option length (bufs h b) \<Longrightarrow>
   buf_bound h' b n = buf_bound h b n"
  by (auto simp: buf_bound_def split: option.splits)

lemma buf_bound_store: "store h b i v = Some h' \<Longrightarrow> buf_bound h' b' n = buf_bound h b' n"
  by (rule buf_bound_length) (rule store_length)

lemma buf_bound_load: "buf_bound h b n \<Longrightarrow> int i < n \<Longrightarrow> \<exists>x. load h b i = Some x"
  by (auto simp: buf_bound_def load_def split: option.splits)

lemma buf_bound_store_ok: "buf_bound h b n \<Longrightarrow> int i < n \<Longrightarrow> \<exists>h'. store h b i v = Some h'"
  by (auto simp: buf_bound_def store_def split: option.splits)

lemma bufs_eqI:
  assumes "map_option length (bufs h' b) = map_option length (bufs h b)"
    and "\<And>j. load h' b j = load h b j"
  shows "bufs h' b = bufs h b"
proof (cases "bufs h b")
  case None
  with assms(1) show ?thesis by simp
next
  case (Some xs)
  with assms(1) obtain ys where ys: "bufs h' b = Some ys" and len: "length ys = length xs"
    by auto
  have "ys ! j = xs ! j" if "j < length xs" for j
    using assms(2) [of j] that Some ys len by (simp add: load_def)
  with len have "ys = xs" by (simp add: nth_equalityI)
  with ys Some show ?thesis by simp
qed

lemma heap_eqI: "same_structs h h' \<Longrightarrow> bufs h' = bufs h \<Longrightarrow> h' = h"
  by (cases h, cases h') (simp add: same_structs_def)

subsection \<open>The buffer loop\<close>

text \<open>
  The loop of \<open>calc_scalar\<close> walks both buffers upwards, reading element \<open>i\<close> before
  writing element \<open>i\<close>. Three facts: it runs to the end when both buffers are large
  enough, it leaves everything but the output elements from \<open>i\<close> on alone, and each of
  those elements is the operator's value at the element read from the input as it was on
  entry (also when both are one buffer).
\<close>

lemma calc_scalar_loop_returns:
  "buf_bound h inp (sint n) \<Longrightarrow> buf_bound h outp (sint n) \<Longrightarrow>
   \<exists>h'. calc_scalar_loop inp outp v g n i h = Some h'"
proof (induction inp outp v g n i h rule: calc_scalar_loop.induct)
  case (1 inp outp v g n i h)
  show ?case
  proof (cases "int i < sint n")
    case False
    then show ?thesis by (simp add: calc_scalar_loop.simps)
  next
    case True
    from buf_bound_load [OF "1.prems"(1) True] obtain x where x: "load h inp i = Some x" ..
    from buf_bound_store_ok [OF "1.prems"(2) True] obtain h1
      where h1: "store h outp i (g x v) = Some h1" ..
    have "\<exists>h'. calc_scalar_loop inp outp v g n (i + 1) h1 = Some h'"
      using "1.IH" [OF True x h1] "1.prems" by (simp add: buf_bound_store [OF h1])
    then show ?thesis
      using True x h1 by (subst calc_scalar_loop.simps) simp
  qed
qed

lemma calc_scalar_loop_frame:
  "calc_scalar_loop inp outp v g n i h = Some h' \<Longrightarrow> loop_frame outp (sint n) i h h'"
proof (induction inp outp v g n i h rule: calc_scalar_loop.induct)
  case (1 inp outp v g n i h)
  show ?case
  proof (cases "int i < sint n")
    case False
    with "1.prems" show ?thesis
      by (simp add: calc_scalar_loop.simps loop_frame_def same_structs_def)
  next
    case True
    with "1.prems" obtain x h1 where x: "load h inp i = Some x"
      and h1: "store h outp i (g x v) = Some h1"
      and rest: "calc_scalar_loop inp outp v g n (i + 1) h1 = Some h'"
      by (subst (asm) calc_scalar_loop.simps) (auto split: option.splits)
    from "1.IH" [OF True x h1 rest] have "loop_frame outp (sint n) (i + 1) h1 h'" .
    then show ?thesis
      using True store_structs [OF h1] store_length [OF h1, of outp]
        store_bufs_other [OF h1] load_store [OF h1]
      unfolding loop_frame_def same_structs_def
      by auto
  qed
qed

lemma calc_scalar_loop_effect:
  "calc_scalar_loop inp outp v g n i h = Some h' \<Longrightarrow> i \<le> j \<Longrightarrow> int j < sint n \<Longrightarrow>
   load h' outp j = map_option (\<lambda>x. g x v) (load h inp j)"
proof (induction inp outp v g n i h rule: calc_scalar_loop.induct)
  case (1 inp outp v g n i h)
  from "1.prems" have less: "int i < sint n" by simp
  with "1.prems" obtain x h1 where x: "load h inp i = Some x"
    and h1: "store h outp i (g x v) = Some h1"
    and rest: "calc_scalar_loop inp outp v g n (i + 1) h1 = Some h'"
    by (subst (asm) calc_scalar_loop.simps) (auto split: option.splits)
  show ?case
  proof (cases "j = i")
    case True
    have "load h' outp i = load h1 outp i"
      using calc_scalar_loop_frame [OF rest] by (simp add: loop_frame_def)
    then show ?thesis
      using True x load_store [OF h1] by simp
  next
    case False
    with "1.prems" have "i + 1 \<le> j" by simp
    from "1.IH" [OF less x h1 rest this "1.prems"(3)]
    show ?thesis using False load_store [OF h1] by simp
  qed
qed

text \<open>The loop of \<open>exec_relu\<close> is the same walk with the ReLU expression as operator.\<close>

lemma relu_loop_scalar:
  "relu_loop c i h =
   calc_scalar_loop (input c) (output c) float_zero (\<lambda>x z. relu_elem x) (output_size c) i h"
proof (induction c i h rule: relu_loop.induct)
  case (1 c i h)
  show ?case
    using "1.IH"
    by (subst relu_loop.simps, subst calc_scalar_loop.simps) (auto split: option.splits)
qed

lemma relu_loop_returns:
  "buf_bound h (input c) (sint (output_size c)) \<Longrightarrow>
   buf_bound h (output c) (sint (output_size c)) \<Longrightarrow>
   \<exists>h'. relu_loop c i h = Some h'"
  by (simp add: relu_loop_scalar calc_scalar_loop_returns)

lemma relu_loop_frame:
  "relu_loop c i h = Some h' \<Longrightarrow> loop_frame (output c) (sint (output_size c)) i h h'"
  by (simp add: relu_loop_scalar calc_scalar_loop_frame)

lemma relu_loop_effect:
  "relu_loop c i h = Some h' \<Longrightarrow> i \<le> j \<Longrightarrow> int j < sint (output_size c) \<Longrightarrow>
   load h' (output c) j = map_option relu_elem (load h (input c) j)"
  by (simp add: relu_loop_scalar calc_scalar_loop_effect)

subsection \<open>Running \<open>exec_relu\<close>\<close>

lemma exec_relu_cases:
  assumes "exec_relu f h = Some (e, f', h')"
  obtains p c where "local_context f = Some p" "relu_privates h p = Some c"
    "relu_loop c 0 h = Some h'" "e = RT_FUNCTION_ERROR_NOERROR" "f' = f"
  using assms by (auto simp: exec_relu_def split: option.splits)

lemma exec_relu_ready_returns:
  assumes "relu_ready f h"
  shows "\<exists>h'. exec_relu f h = Some (RT_FUNCTION_ERROR_NOERROR, f, h')"
proof -
  from assms obtain p c where p: "local_context f = Some p" and c: "relu_privates h p = Some c"
    and b: "buf_bound h (input c) (sint (output_size c))"
      "buf_bound h (output c) (sint (output_size c))"
    by (auto simp: relu_ready_def split: option.splits)
  from relu_loop_returns [OF b] obtain h' where "relu_loop c 0 h = Some h'" ..
  with p c show ?thesis by (simp add: exec_relu_def)
qed

lemma relu_ready_frame:
  assumes "relu_ready f h" and "same_structs h h'"
    and "\<And>b. map_option length (bufs h' b) = map_option length (bufs h b)"
  shows "relu_ready f h'"
  using assms(1,2) buf_bound_length [OF assms(3)]
  by (auto simp: relu_ready_def same_structs_def split: option.splits)

lemma loop_frame_lengths:
  "loop_frame outp n i h h' \<Longrightarrow> map_option length (bufs h' b) = map_option length (bufs h b)"
  by (cases "b = outp") (simp_all add: loop_frame_def)

lemma exec_relu_keeps_ready:
  assumes "relu_ready f h" and "exec_relu f h = Some (e, f', h')"
  shows "relu_ready f h'"
proof -
  from assms(2) obtain c where "relu_loop c 0 h = Some h'"
    by (rule exec_relu_cases)
  then have fr: "loop_frame (output c) (sint (output_size c)) 0 h h'"
    by (rule relu_loop_frame)
  then have "same_structs h h'" by (simp add: loop_frame_def)
  with assms(1) show ?thesis
    by (rule relu_ready_frame) (rule loop_frame_lengths [OF fr])
qed

text \<open>
  Ready is what a successful allocation leaves, when the two variables' buffers hold as
  many elements as their shapes say.
\<close>

lemma allocate_relu_ready:
  assumes "allocate_relu_local_context m f0 h0 = Some (RT_FUNCTION_ERROR_NOERROR, f, h)"
    and "inputs f0 = iv # ivs" and "outputs f0 = ov # ovs"
    and "var_bound h0 iv" and "var_bound h0 ov"
  shows "relu_ready f h"
  using assms
  by (auto simp: allocate_relu_local_context_def relu_ready_def var_bound_def buf_bound_def
      Let_def split: if_splits option.splits)

lemma allocate_relu_malloc_failure:
  "num_of_inputs f = 1 \<Longrightarrow> num_of_outputs f = 1 \<Longrightarrow>
   allocate_relu_local_context None f h = Some (RT_FUNCTION_ERROR_MALLOC, f, h)"
  by (simp add: allocate_relu_local_context_def)

text \<open>
  Beyond the range of \<open>int\<close>: with \<open>2^32\<close> elements on both sides no size can be
  computed, and neither function has a defined result.
\<close>

lemma allocate_relu_huge: "allocate_relu_local_context (Some 7) huge_record sample_heap = None"
  by (simp add: allocate_relu_local_context_def huge_record_def calc_shape_size_def)

lemma calc_scalar_huge: "calc_scalar huge_record v g h = None"
  by (simp add: calc_scalar_def huge_record_def calc_shape_size_def)

lemma allocate_convolution_delegates:
  "allocate_convolution_local_context common f h = common f 0 1 2 (- 1) 0 h"
  by (simp add: allocate_convolution_local_context_def)

subsection \<open>The sample states are Ready\<close>

lemma ready_sample: "relu_ready ready_record ready_heap"
  by (simp add: relu_ready_def ready_record_def ready_heap_def sample_record_def
      sample_private_def sample_heap_def buf_bound_def)

lemma ready_inplace: "relu_ready inplace_record inplace_heap"
  by (simp add: relu_ready_def inplace_record_def inplace_heap_def sample_heap_def buf_bound_def)

section \<open>Allocation of the ReLU context\<close>

text \<open>
  C1 (amended). An allocation that fails on the arity (either status) returns before
  anything is stored: the record, with its \<open>local_context\<close> pointer, and the heap are
  as they were. An allocation that fails with \<open>RT_FUNCTION_ERROR_INVALID_SHAPE\<close> returns
  after the context has been stored: \<open>malloc\<close> had succeeded, the record's
  \<open>local_context\<close> is the pointer it returned, nothing else in the record or the heap
  has changed, and the context found there holds the two variables' data pointers and
  their two element counts, which differ. And this is what happens whenever the arity is
  right, \<open>malloc\<close> succeeds and the two element counts (each within the range of
  \<open>int\<close>) differ.
\<close>

theorem allocate_relu_failure_context:
  "(allocate_relu_local_context m f h = Some (e, f', h') \<and>
    (e = RT_FUNCTION_ERROR_INVALID_NUM_OF_INPUTS \<or>
     e = RT_FUNCTION_ERROR_INVALID_NUM_OF_OUTPUTS) \<longrightarrow> f' = f \<and> h' = h) \<and>
   (allocate_relu_local_context m f h = Some (RT_FUNCTION_ERROR_INVALID_SHAPE, f', h') \<longrightarrow>
      (\<exists>p iv ivs ov ovs n_in n_out.
          m = Some p \<and> inputs f = iv # ivs \<and> outputs f = ov # ovs \<and>
          sint n_in = prod_list (map sint (shape iv)) \<and>
          sint n_out = prod_list (map sint (shape ov)) \<and> n_in \<noteq> n_out \<and>
          f' = f\<lparr>local_context := Some p\<rparr> \<and>
          h' = h\<lparr>relu_privates := (relu_privates h)
                 (p \<mapsto> \<lparr>input = data iv, input_size = n_in,
                         output = data ov, output_size = n_out\<rparr>)\<rparr>)) \<and>
   (num_of_inputs f = 1 \<and> num_of_outputs f = 1 \<and> m = Some q \<and>
    inputs f = v # vs \<and> outputs f = w # ws \<and>
    calc_shape_size (shape v) = Some a \<and> calc_shape_size (shape w) = Some b \<and> a \<noteq> b \<longrightarrow>
      allocate_relu_local_context m f h =
        Some (RT_FUNCTION_ERROR_INVALID_SHAPE, f\<lparr>local_context := Some q\<rparr>,
              h\<lparr>relu_privates := (relu_privates h)
                 (q \<mapsto> \<lparr>input = data v, input_size = a, output = data w, output_size = b\<rparr>)\<rparr>))"
proof (intro conjI impI)
  assume "allocate_relu_local_context m f h = Some (e, f', h') \<and>
    (e = RT_FUNCTION_ERROR_INVALID_NUM_OF_INPUTS \<or>
     e = RT_FUNCTION_ERROR_INVALID_NUM_OF_OUTPUTS)"
  then show "f' = f" and "h' = h"
    by (auto simp: allocate_relu_local_context_def Let_def
        split: if_splits option.splits list.splits)
next
  assume "allocate_relu_local_context m f h = Some (RT_FUNCTION_ERROR_INVALID_SHAPE, f', h')"
  then obtain p iv ivs ov ovs n_in n_out where "m = Some p" "inputs f = iv # ivs"
    "outputs f = ov # ovs" "calc_shape_size (shape iv) = Some n_in"
    "calc_shape_size (shape ov) = Some n_out" "n_in \<noteq> n_out"
    "f' = f\<lparr>local_context := Some p\<rparr>"
    "h' = h\<lparr>relu_privates := (relu_privates h)
       (p \<mapsto> \<lparr>input = data iv, input_size = n_in, output = data ov, output_size = n_out\<rparr>)\<rparr>"
    by (auto simp: allocate_relu_local_context_def Let_def
        split: if_splits option.splits list.splits)
  then show "\<exists>p iv ivs ov ovs n_in n_out.
          m = Some p \<and> inputs f = iv # ivs \<and> outputs f = ov # ovs \<and>
          sint n_in = prod_list (map sint (shape iv)) \<and>
          sint n_out = prod_list (map sint (shape ov)) \<and> n_in \<noteq> n_out \<and>
          f' = f\<lparr>local_context := Some p\<rparr> \<and>
          h' = h\<lparr>relu_privates := (relu_privates h)
                 (p \<mapsto> \<lparr>input = data iv, input_size = n_in,
                         output = data ov, output_size = n_out\<rparr>)\<rparr>"
    using calc_shape_size_prod by blast
next
  assume "num_of_inputs f = 1 \<and> num_of_outputs f = 1 \<and> m = Some q \<and>
    inputs f = v # vs \<and> outputs f = w # ws \<and>
    calc_shape_size (shape v) = Some a \<and> calc_shape_size (shape w) = Some b \<and> a \<noteq> b"
  then show "allocate_relu_local_context m f h =
        Some (RT_FUNCTION_ERROR_INVALID_SHAPE, f\<lparr>local_context := Some q\<rparr>,
              h\<lparr>relu_privates := (relu_privates h)
                 (q \<mapsto> \<lparr>input = data v, input_size = a, output = data w, output_size = b\<rparr>)\<rparr>)"
    by (simp add: allocate_relu_local_context_def)
qed

theorem allocate_relu_failure_context_witness:
  "allocate_relu_local_context (Some 7) two_inputs_record sample_heap =
     Some (RT_FUNCTION_ERROR_INVALID_NUM_OF_INPUTS, two_inputs_record, sample_heap) \<and>
   calc_shape_size [2, 2] = Some 4 \<and> calc_shape_size [3] = Some 3 \<and>
   allocate_relu_local_context (Some 7) mismatch_record sample_heap =
     Some (RT_FUNCTION_ERROR_INVALID_SHAPE, mismatch_record\<lparr>local_context := Some 7\<rparr>,
           sample_heap\<lparr>relu_privates := (relu_privates sample_heap)
             (7 \<mapsto> \<lparr>input = 0, input_size = 4, output = 1, output_size = 3\<rparr>)\<rparr>)"
proof -
  have a: "allocate_relu_local_context (Some 7) two_inputs_record sample_heap =
     Some (RT_FUNCTION_ERROR_INVALID_NUM_OF_INPUTS, two_inputs_record, sample_heap)"
    by (simp add: allocate_relu_local_context_def two_inputs_record_def)
  have s: "calc_shape_size [2, 2] = Some 4" "calc_shape_size [3] = Some 3"
    by (simp_all add: calc_shape_size_def)
  have r: "num_of_inputs mismatch_record = 1" "num_of_outputs mismatch_record = 1"
    "inputs mismatch_record = \<lparr>shape = [2, 2], data = 0\<rparr> # []"
    "outputs mismatch_record = \<lparr>shape = [3], data = 1\<rparr> # []"
    by (simp_all add: mismatch_record_def)
  from a s r
    allocate_relu_failure_context [of "Some 7" two_inputs_record sample_heap
      RT_FUNCTION_ERROR_INVALID_NUM_OF_INPUTS two_inputs_record sample_heap]
    allocate_relu_failure_context [of "Some 7" mismatch_record sample_heap _ _ _ 7
      "\<lparr>shape = [2, 2], data = 0\<rparr>" "[]" "\<lparr>shape = [3], data = 1\<rparr>" "[]" 4 3]
  show ?thesis by simp
qed

theorem allocate_relu_shape_mismatch_stores_context:
  "local_context mismatch_record = None \<and>
   map_option fst (allocate_relu_local_context (Some 7) mismatch_record sample_heap) =
     Some RT_FUNCTION_ERROR_INVALID_SHAPE \<and>
   map_option (local_context \<circ> fst \<circ> snd)
     (allocate_relu_local_context (Some 7) mismatch_record sample_heap) = Some (Some 7)"
  by (simp add: allocate_relu_local_context_def mismatch_record_def sample_heap_def
      calc_shape_size_def)

text \<open>
  C3 (amended). A record bound with a number of inputs other than 1 makes the allocation
  fail with \<open>RT_FUNCTION_ERROR_INVALID_NUM_OF_INPUTS\<close>, and a record bound with exactly
  1 input and a number of outputs other than 1 makes it fail with
  \<open>RT_FUNCTION_ERROR_INVALID_NUM_OF_OUTPUTS\<close>; either way the record (its
  \<open>local_context\<close> included) and the heap are returned as they were, whatever \<open>malloc\<close>
  would have answered.
\<close>

theorem allocate_relu_arity:
  "(num_of_inputs f \<noteq> 1 \<longrightarrow>
      allocate_relu_local_context m f h =
        Some (RT_FUNCTION_ERROR_INVALID_NUM_OF_INPUTS, f, h)) \<and>
   (num_of_inputs f = 1 \<and> num_of_outputs f \<noteq> 1 \<longrightarrow>
      allocate_relu_local_context m f h =
        Some (RT_FUNCTION_ERROR_INVALID_NUM_OF_OUTPUTS, f, h))"
  by (simp add: allocate_relu_local_context_def)

theorem allocate_relu_arity_witness:
  "num_of_inputs two_inputs_record \<noteq> 1 \<and>
   allocate_relu_local_context (Some 7) two_inputs_record sample_heap =
     Some (RT_FUNCTION_ERROR_INVALID_NUM_OF_INPUTS, two_inputs_record, sample_heap) \<and>
   num_of_inputs two_outputs_record = 1 \<and> num_of_outputs two_outputs_record \<noteq> 1 \<and>
   allocate_relu_local_context (Some 7) two_outputs_record sample_heap =
     Some (RT_FUNCTION_ERROR_INVALID_NUM_OF_OUTPUTS, two_outputs_record, sample_heap)"
  using allocate_relu_arity [of two_inputs_record "Some 7" sample_heap]
    allocate_relu_arity [of two_outputs_record "Some 7" sample_heap]
  by (simp add: two_inputs_record_def two_outputs_record_def)

theorem allocate_relu_outputs_checked_second:
  "num_of_outputs two_by_two_record \<noteq> 1 \<and>
   allocate_relu_local_context (Some 7) two_by_two_record sample_heap =
     Some (RT_FUNCTION_ERROR_INVALID_NUM_OF_INPUTS, two_by_two_record, sample_heap)"
  by (simp add: allocate_relu_local_context_def two_by_two_record_def)

section \<open>Execution of ReLU\<close>

text \<open>
  C2. In the Ready state, with \<open>c\<close> the stored context, \<open>exec_relu\<close> returns and has
  written, for every index \<open>i\<close> below the output element count, the input element \<open>x\<close>
  read at \<open>i\<close> to the output at \<open>i\<close> when \<open>x > 0\<close>, and zero otherwise. In particular
  an input element that is zero (of either sign) gives the output element +0.
\<close>

theorem exec_relu_elementwise:
  assumes "relu_ready f h" and "local_context f = Some p" and "relu_privates h p = Some c"
  shows "\<exists>h'. exec_relu f h = Some (RT_FUNCTION_ERROR_NOERROR, f, h') \<and>
           (\<forall>i. int i < sint (output_size c) \<longrightarrow>
              (\<exists>x. load h (input c) i = Some x \<and>
                   load h' (output c) i = Some (if float_gt_zero x then x else float_zero) \<and>
                   (x = float_zero \<or> x = float_neg_zero \<longrightarrow>
                      load h' (output c) i = Some float_zero)))"
proof -
  from exec_relu_ready_returns [OF assms(1)] obtain h'
    where run: "exec_relu f h = Some (RT_FUNCTION_ERROR_NOERROR, f, h')" ..
  with assms(2,3) have loop: "relu_loop c 0 h = Some h'"
    by (auto elim: exec_relu_cases)
  from assms have inb: "buf_bound h (input c) (sint (output_size c))"
    by (auto simp: relu_ready_def)
  have "\<exists>x. load h (input c) i = Some x \<and>
            load h' (output c) i = Some (if float_gt_zero x then x else float_zero) \<and>
            (x = float_zero \<or> x = float_neg_zero \<longrightarrow> load h' (output c) i = Some float_zero)"
    if "int i < sint (output_size c)" for i
  proof -
    from buf_bound_load [OF inb that] obtain x where x: "load h (input c) i = Some x" ..
    from relu_loop_effect [OF loop _ that] x
    have "load h' (output c) i = Some (relu_elem x)" by simp
    with x show ?thesis
      by (auto simp: relu_elem_def float_gt_zero_zero float_gt_zero_neg_zero)
  qed
  with run show ?thesis by blast
qed

theorem exec_relu_elementwise_witness:
  "relu_ready ready_record ready_heap \<and>
   (\<exists>h'. exec_relu ready_record ready_heap = Some (RT_FUNCTION_ERROR_NOERROR, ready_record, h') \<and>
         load h' 1 0 = Some 0x3F800000 \<and> load h' 1 1 = Some 0 \<and>
         load h' 1 2 = Some 0 \<and> load h' 1 3 = Some 0)"
proof -
  have p: "local_context ready_record = Some 7"
    by (simp add: ready_record_def)
  have c: "relu_privates ready_heap 7 = Some sample_private"
    by (simp add: ready_heap_def)
  from exec_relu_elementwise [OF ready_sample p c] obtain h'
    where run: "exec_relu ready_record ready_heap =
        Some (RT_FUNCTION_ERROR_NOERROR, ready_record, h')"
      and elems: "\<forall>i. int i < sint (output_size sample_private) \<longrightarrow>
        (\<exists>x. load ready_heap (input sample_private) i = Some x \<and>
            load h' (output sample_private) i =
              Some (if float_gt_zero x then x else float_zero) \<and>
            (x = float_zero \<or> x = float_neg_zero \<longrightarrow>
               load h' (output sample_private) i = Some float_zero))"
    by blast
  have "load h' 1 0 = Some 0x3F800000" "load h' 1 1 = Some 0"
    "load h' 1 2 = Some 0" "load h' 1 3 = Some 0"
    using elems [rule_format, of 0] elems [rule_format, of 1]
      elems [rule_format, of 2] elems [rule_format, of 3]
    by (simp_all add: sample_private_def load_def ready_heap_def sample_heap_def
        float_gt_zero_def float_zero_def)
  with run ready_sample show ?thesis by blast
qed

text \<open>
  C5. The ReLU expression is idempotent on every float, and when the context's input and
  output are the same buffer, a second run of \<open>exec_relu\<close> after the first returns the
  heap the first one left: the buffer after two runs is the buffer after one.
\<close>

theorem exec_relu_idempotent:
  "relu_elem (relu_elem x) = relu_elem x \<and>
   (relu_ready f h \<and> local_context f = Some p \<and> relu_privates h p = Some c \<and>
    input c = output c \<longrightarrow>
      (\<exists>h1. exec_relu f h = Some (RT_FUNCTION_ERROR_NOERROR, f, h1) \<and>
            exec_relu f h1 = Some (RT_FUNCTION_ERROR_NOERROR, f, h1)))"
proof (intro conjI impI)
  show "relu_elem (relu_elem x) = relu_elem x" by (rule relu_elem_idem)
next
  assume a: "relu_ready f h \<and> local_context f = Some p \<and> relu_privates h p = Some c \<and>
    input c = output c"
  then have ready: "relu_ready f h" and p: "local_context f = Some p"
    and c: "relu_privates h p = Some c" and same: "input c = output c"
    by simp_all
  from exec_relu_ready_returns [OF ready] obtain h1
    where run1: "exec_relu f h = Some (RT_FUNCTION_ERROR_NOERROR, f, h1)" ..
  with p c have loop1: "relu_loop c 0 h = Some h1"
    by (auto elim: exec_relu_cases)
  have fr1: "loop_frame (output c) (sint (output_size c)) 0 h h1"
    using loop1 by (rule relu_loop_frame)
  have ready1: "relu_ready f h1"
    using ready run1 by (rule exec_relu_keeps_ready)
  from exec_relu_ready_returns [OF ready1] obtain h2
    where run2: "exec_relu f h1 = Some (RT_FUNCTION_ERROR_NOERROR, f, h2)" ..
  from fr1 c have c1: "relu_privates h1 p = Some c"
    by (simp add: loop_frame_def same_structs_def)
  with run2 p have loop2: "relu_loop c 0 h1 = Some h2"
    by (auto elim: exec_relu_cases)
  have fr2: "loop_frame (output c) (sint (output_size c)) 0 h1 h2"
    using loop2 by (rule relu_loop_frame)
  have "load h2 (output c) j = load h1 (output c) j" for j
  proof (cases "int j < sint (output_size c)")
    case True
    have "load h2 (output c) j = map_option relu_elem (load h1 (output c) j)"
      using relu_loop_effect [OF loop2 _ True] same by simp
    also have "load h1 (output c) j = map_option relu_elem (load h (input c) j)"
      using relu_loop_effect [OF loop1 _ True] by simp
    finally show ?thesis
      using relu_loop_effect [OF loop1 _ True]
      by (simp add: option.map_comp comp_def relu_elem_idem)
  next
    case False
    with fr2 show ?thesis by (simp add: loop_frame_def)
  qed
  then have out: "bufs h2 (output c) = bufs h1 (output c)"
    using fr2 by (intro bufs_eqI) (simp_all add: loop_frame_def)
  have "bufs h2 = bufs h1"
  proof (rule ext)
    fix b
    show "bufs h2 b = bufs h1 b"
      using fr2 out by (cases "b = output c") (simp_all add: loop_frame_def)
  qed
  with fr2 have "h2 = h1" by (intro heap_eqI) (simp_all add: loop_frame_def)
  with run1 run2 show "\<exists>h1. exec_relu f h = Some (RT_FUNCTION_ERROR_NOERROR, f, h1) \<and>
      exec_relu f h1 = Some (RT_FUNCTION_ERROR_NOERROR, f, h1)"
    by auto
qed

theorem exec_relu_idempotent_witness:
  "relu_ready inplace_record inplace_heap \<and>
   (\<exists>h1. exec_relu inplace_record inplace_heap =
           Some (RT_FUNCTION_ERROR_NOERROR, inplace_record, h1) \<and>
         exec_relu inplace_record h1 = Some (RT_FUNCTION_ERROR_NOERROR, inplace_record, h1))"
  using ready_inplace
    exec_relu_idempotent [of _ inplace_record inplace_heap 7
      "\<lparr>input = 0, input_size = 4, output = 0, output_size = 4\<rparr>"]
  by (simp add: inplace_record_def inplace_heap_def)

text \<open>
  C6. In the Ready state \<open>exec_relu\<close> returns \<open>RT_FUNCTION_ERROR_NOERROR\<close>, whatever
  the buffers hold, and leaves the record in the Ready state, so that every later call
  returns \<open>RT_FUNCTION_ERROR_NOERROR\<close> as well.
\<close>

theorem exec_relu_never_fails:
  assumes "relu_ready f h"
  shows "\<exists>h'. exec_relu f h = Some (RT_FUNCTION_ERROR_NOERROR, f, h') \<and> relu_ready f h'"
proof -
  from exec_relu_ready_returns [OF assms] obtain h'
    where run: "exec_relu f h = Some (RT_FUNCTION_ERROR_NOERROR, f, h')" ..
  moreover from assms run have "relu_ready f h'" by (rule exec_relu_keeps_ready)
  ultimately show ?thesis by blast
qed

theorem exec_relu_never_fails_witness:
  "relu_ready ready_record ready_heap \<and>
   (\<exists>h'. exec_relu ready_record ready_heap = Some (RT_FUNCTION_ERROR_NOERROR, ready_record, h') \<and>
         relu_ready ready_record h')"
  using ready_sample exec_relu_never_fails [OF ready_sample] by simp



text \<open>
  C10. A call of \<open>exec_relu\<close> that returns leaves the record as it was, leaves every heap
  component other than the float buffers as it was (the private context among them),
  leaves every buffer other than the context's output buffer as it was, keeps that
  buffer's length, and leaves its elements from the output element count on as they
  were. So when input and output are distinct buffers, the input buffer is unchanged.
\<close>

theorem exec_relu_frame:
  assumes "exec_relu f h = Some (e, f', h')"
    and "local_context f = Some p" and "relu_privates h p = Some c"
  shows "f' = f \<and> same_structs h h' \<and> relu_privates h' p = Some c \<and>
         (\<forall>b. b \<noteq> output c \<longrightarrow> bufs h' b = bufs h b) \<and>
         map_option length (bufs h' (output c)) = map_option length (bufs h (output c)) \<and>
         (\<forall>j. \<not> int j < sint (output_size c) \<longrightarrow>
              load h' (output c) j = load h (output c) j) \<and>
         (input c \<noteq> output c \<longrightarrow> bufs h' (input c) = bufs h (input c))"
proof -
  from assms have loop: "relu_loop c 0 h = Some h'" and f': "f' = f"
    by (auto elim: exec_relu_cases)
  from relu_loop_frame [OF loop] assms(3) f' show ?thesis
    by (simp add: loop_frame_def same_structs_def)
qed

theorem exec_relu_frame_witness:
  "\<exists>h'. exec_relu ready_record ready_heap = Some (RT_FUNCTION_ERROR_NOERROR, ready_record, h') \<and>
        relu_privates h' 7 = Some sample_private \<and>
        bufs h' 0 = Some [0x3F800000, 0xBF800000, 0, 0x7FC00000] \<and>
        map_option length (bufs h' 1) = Some 4"
proof -
  from exec_relu_ready_returns [OF ready_sample] obtain h'
    where run: "exec_relu ready_record ready_heap =
      Some (RT_FUNCTION_ERROR_NOERROR, ready_record, h')" ..
  have p: "local_context ready_record = Some 7"
    by (simp add: ready_record_def)
  have c: "relu_privates ready_heap 7 = Some sample_private"
    by (simp add: ready_heap_def)
  from exec_relu_frame [OF run p c]
  have "relu_privates h' 7 = Some sample_private"
    and "bufs h' 0 = bufs ready_heap 0"
    and "map_option length (bufs h' 1) = map_option length (bufs ready_heap 1)"
    by (simp_all add: sample_private_def)
  with run show ?thesis
    by (auto simp: ready_heap_def sample_heap_def)
qed

section \<open>Scalar arithmetic\<close>

text \<open>
  C7. Let \<open>n\<close> be the product of the dimensions of the first output's shape of \<open>f\<close>, a
  value that an \<open>int\<close> can hold, and let the first input and first output buffers hold
  at least \<open>n\<close> elements. Then \<open>calc_scalar\<close> returns and has written
  \<open>calc_func (input[i], v)\<close> to \<open>output[i]\<close> for every \<open>i\<close> in \<open>[0, n)\<close>, for every
  scalar \<open>v\<close> and every operator \<open>calc_func\<close>; \<open>input[i]\<close> is the element on entry.
\<close>

theorem calc_scalar_elementwise:
  assumes "inputs f = iv # ivs" and "outputs f = ov # ovs"
    and "- (2 ^ 31) \<le> prod_list (map sint (shape ov))"
    and "prod_list (map sint (shape ov)) < 2 ^ 31"
    and "buf_bound h (data iv) (prod_list (map sint (shape ov)))"
    and "buf_bound h (data ov) (prod_list (map sint (shape ov)))"
  shows "\<exists>h'. calc_scalar f v calc_func h = Some h' \<and>
           (\<forall>i. int i < prod_list (map sint (shape ov)) \<longrightarrow>
              (\<exists>x. load h (data iv) i = Some x \<and>
                   load h' (data ov) i = Some (calc_func x v)))"
proof -
  from calc_shape_size_fits [OF assms(3,4)] obtain n
    where n: "calc_shape_size (shape ov) = Some n"
      and val: "sint n = prod_list (map sint (shape ov))" by blast
  from assms(5,6) val have b: "buf_bound h (data iv) (sint n)" "buf_bound h (data ov) (sint n)"
    by simp_all
  from calc_scalar_loop_returns [OF b] obtain h'
    where loop: "calc_scalar_loop (data iv) (data ov) v calc_func n 0 h = Some h'" ..
  with assms(1,2) n have run: "calc_scalar f v calc_func h = Some h'"
    by (simp add: calc_scalar_def)
  have "\<exists>x. load h (data iv) i = Some x \<and> load h' (data ov) i = Some (calc_func x v)"
    if "int i < prod_list (map sint (shape ov))" for i
  proof -
    from that val have less: "int i < sint n" by simp
    from buf_bound_load [OF b(1) less] obtain x where x: "load h (data iv) i = Some x" ..
    with calc_scalar_loop_effect [OF loop _ less] show ?thesis by simp
  qed
  with run show ?thesis by blast
qed

theorem calc_scalar_elementwise_witness:
  "\<exists>h'. calc_scalar sample_record 0x40A00000 positive_or sample_heap = Some h' \<and>
        load h' 1 0 = Some 0x3F800000 \<and> load h' 1 1 = Some 0x40A00000 \<and>
        load h' 1 2 = Some 0x40A00000 \<and> load h' 1 3 = Some 0x40A00000"
proof -
  have i: "inputs sample_record = \<lparr>shape = [2, 2], data = 0\<rparr> # []"
    and ou: "outputs sample_record = \<lparr>shape = [4], data = 1\<rparr> # []"
    by (simp_all add: sample_record_def)
  have r: "- (2 ^ 31) \<le> prod_list (map sint (shape \<lparr>shape = [4 :: c_int], data = 1\<rparr>))"
      "prod_list (map sint (shape \<lparr>shape = [4 :: c_int], data = 1\<rparr>)) < 2 ^ 31"
    by simp_all
  have b: "buf_bound sample_heap (data \<lparr>shape = [2, 2], data = 0\<rparr>)
        (prod_list (map sint (shape \<lparr>shape = [4 :: c_int], data = 1\<rparr>)))"
      "buf_bound sample_heap (data \<lparr>shape = [4 :: c_int], data = 1\<rparr>)
        (prod_list (map sint (shape \<lparr>shape = [4 :: c_int], data = 1\<rparr>)))"
    by (simp_all add: buf_bound_def sample_heap_def)
  from calc_scalar_elementwise [OF i ou r b, of "0x40A00000" positive_or] obtain h'
    where run: "calc_scalar sample_record 0x40A00000 positive_or sample_heap = Some h'"
      and elems: "\<forall>i. int i < 4 \<longrightarrow>
        (\<exists>x. load sample_heap 0 i = Some x \<and> load h' 1 i = Some (positive_or x 0x40A00000))"
    by auto
  have "load h' 1 0 = Some 0x3F800000" "load h' 1 1 = Some 0x40A00000"
    "load h' 1 2 = Some 0x40A00000" "load h' 1 3 = Some 0x40A00000"
    using elems [rule_format, of 0] elems [rule_format, of 1]
      elems [rule_format, of 2] elems [rule_format, of 3]
    by (simp_all add: load_def sample_heap_def positive_or_def float_gt_zero_def)
  with run show ?thesis by blast
qed

section \<open>Convolution\<close>

text \<open>
  C8. In the Ready state, with \<open>k\<close> the code pointer held in the private context,
  \<open>exec_convolution\<close> is the call of the function at \<open>k\<close> on the record: it returns
  what that call returns, from the same record and heap, and does nothing else.
\<close>

theorem exec_convolution_indirect_call:
  assumes "convolution_ready f h k"
  shows "exec_convolution code f h = code k f h"
  using assms
  by (auto simp: convolution_ready_def exec_convolution_def split: option.splits)

theorem exec_convolution_indirect_call_witness:
  "convolution_ready convolution_record convolution_heap 11 \<and>
   exec_convolution sample_code convolution_record convolution_heap =
     Some (RT_FUNCTION_ERROR_INVALID_SHAPE, convolution_record, convolution_heap)"
proof -
  have r: "convolution_ready convolution_record convolution_heap 11"
    by (simp add: convolution_ready_def convolution_record_def convolution_heap_def)
  from r exec_convolution_indirect_call [OF r, of sample_code] show ?thesis
    by (simp add: sample_code_def)
qed

section \<open>Allocation when \<open>malloc\<close> fails\<close>



end
